theory Spec2Isabelle
  imports Main "HOL-Library.Word" "HOL-Library.Multiset"
begin

section \<open>JavaScript strings\<close>

text \<open>
  A JavaScript string is a sequence of 16-bit UTF-16 code units; \<open>word[0]\<close>,
  \<open>split("")\<close> and a regular expression without the \<open>u\<close> flag all work on code
  units. \<open>js\<close> embeds an ASCII literal, one code unit per character.
\<close>

type_synonym js_string = "16 word list"

definition js :: "string \<Rightarrow> js_string" where
  "js s = map of_char s"

text \<open>
  The characters the class \<open>\s\<close> of a regular expression matches: the WhiteSpace and
  LineTerminator code points of ECMAScript (tab, LF, VT, FF, CR, space, NBSP,
  U+1680, U+2000 to U+200A, U+2028, U+2029, U+202F, U+205F, U+3000 and U+FEFF).
\<close>

definition isSpace :: "16 word \<Rightarrow> bool" where
  "isSpace c =
     (c = 0x09 \<or> c = 0x0A \<or> c = 0x0B \<or> c = 0x0C \<or> c = 0x0D \<or> c = 0x20 \<or>
      c = 0xA0 \<or> c = 0x1680 \<or> (0x2000 \<le> c \<and> c \<le> 0x200A) \<or>
      c = 0x2028 \<or> c = 0x2029 \<or> c = 0x202F \<or> c = 0x205F \<or> c = 0x3000 \<or>
      c = 0xFEFF)"

text \<open>\<open>text.replace(/\s/g, "")\<close>: every whitespace code unit is deleted.\<close>

definition removeSpaces :: "js_string \<Rightarrow> js_string" where
  "removeSpaces s = filter (\<lambda>c. \<not> isSpace c) s"

text \<open>
  \<open>text.split(/\s+/)\<close>. The scan of \<open>String.prototype.split\<close> walks the string; at
  a whitespace code unit the separator matches the whole run of whitespace (the
  quantifier is greedy), the piece read so far is emitted, also when it is empty,
  and the scan goes on after the run; at the end the last piece is emitted, also
  when it is empty. \<open>cur\<close> is the piece read so far.
\<close>

function splitSpaces :: "js_string \<Rightarrow> js_string \<Rightarrow> js_string list" where
  "splitSpaces cur [] = [cur]"
| "splitSpaces cur (c # cs) =
     (if isSpace c then cur # splitSpaces [] (dropWhile isSpace cs)
      else splitSpaces (cur @ [c]) cs)"
  by pat_completeness auto
termination
  by (relation "measure (\<lambda>(cur, s). length s)")
     (auto simp: length_dropWhile_le less_Suc_eq_le)

text \<open>\<open>parts.join(sep)\<close>.\<close>

fun join :: "js_string \<Rightarrow> js_string list \<Rightarrow> js_string" where
  "join sep [] = []"
| "join sep [x] = x"
| "join sep (x # y # ys) = x @ sep @ join sep (y # ys)"

text \<open>
  \<open>text.slice(b, e)\<close> on integer arguments: a negative index counts from the end
  of the string, both indices are clamped to the string, and the result is empty
  when the end is not after the beginning.
\<close>

definition slice :: "js_string \<Rightarrow> int \<Rightarrow> int \<Rightarrow> js_string" where
  "slice s b e =
     (let len = int (length s);
          from = (if b < 0 then max (len + b) 0 else min b len);
          to = (if e < 0 then max (len + e) 0 else min e len)
      in take (nat (max (to - from) 0)) (drop (nat from) s))"

text \<open>
  \<open>String.prototype.toUpperCase\<close> follows the Unicode case mappings, a table of the
  host and not of this program: the functions below take it as the parameter
  \<open>up\<close>. \<open>toUpperCaseASCII\<close> is that mapping on strings of ASCII code units, where
  it sends \<open>a\<close> to \<open>z\<close> to \<open>A\<close> to \<open>Z\<close> and keeps every other code unit; the
  examples on ASCII text are evaluated with it.
\<close>

definition toUpperCaseASCII :: "js_string \<Rightarrow> js_string" where
  "toUpperCaseASCII s = map (\<lambda>c. if 0x61 \<le> c \<and> c \<le> 0x7A then c - 0x20 else c) s"

section \<open>The data model (types.tsx)\<close>

record SegmentBehavior =
  getDefaultResolution :: "js_string \<Rightarrow> js_string"
  showResolutionInput :: bool
  resolutionEditable :: bool
  showWordplaySelector :: bool

record Mode =
  key_mode :: js_string
  name_mode :: js_string
  style :: js_string
  selectedStyle :: "js_string option"
  behaviorKey :: js_string

record WordplayType =
  key :: js_string
  name :: js_string
  symbol :: js_string

text \<open>
  \<open>start\<close> and \<open>end\<close> are character offsets (JavaScript numbers holding
  integers); the optional \<open>wordplayType\<close> is \<open>None\<close> when the property is absent
  or \<open>undefined\<close>.
\<close>

record Segment =
  id_seg :: js_string
  start :: int
  end_seg :: int
  text_seg :: js_string
  mode :: Mode
  resolution :: js_string
  wordplayType :: "WordplayType option"

section \<open>The configuration tables (config.tsx)\<close>

text \<open>
  The object \<open>segmentBehaviors\<close>, as the list of its own properties; looking a key
  up that is not one of them gives \<open>None\<close> (in the source \<open>undefined\<close>, or an
  inherited property of \<open>Object.prototype\<close>, none of which has a
  \<open>getDefaultResolution\<close> method).
\<close>

definition segmentBehaviors ::
  "(js_string \<Rightarrow> js_string) \<Rightarrow> js_string \<Rightarrow> SegmentBehavior option" where
  "segmentBehaviors up = map_of
     [(js ''fodder'',
         \<lparr>getDefaultResolution = (\<lambda>text. join [] (map (\<lambda>c. [c]) (up (removeSpaces text)))),
          showResolutionInput = True, resolutionEditable = False,
          showWordplaySelector = False\<rparr>),
      (js ''synonym'',
         \<lparr>getDefaultResolution = (\<lambda>text. []),
          showResolutionInput = True, resolutionEditable = True,
          showWordplaySelector = False\<rparr>),
      (js ''abbreviation'',
         \<lparr>getDefaultResolution =
            (\<lambda>text. up (join [] (map (\<lambda>word. case word of [] \<Rightarrow> [] | c # cs \<Rightarrow> [c])
                                    (splitSpaces [] text)))),
          showResolutionInput = True, resolutionEditable = True,
          showWordplaySelector = False\<rparr>),
      (js ''wordplayIndicator'',
         \<lparr>getDefaultResolution = (\<lambda>text. []),
          showResolutionInput = False, resolutionEditable = False,
          showWordplaySelector = True\<rparr>),
      (js ''definition'',
         \<lparr>getDefaultResolution = (\<lambda>text. []),
          showResolutionInput = True, resolutionEditable = True,
          showWordplaySelector = False\<rparr>),
      (js ''clear'',
         \<lparr>getDefaultResolution = (\<lambda>text. []),
          showResolutionInput = False, resolutionEditable = False,
          showWordplaySelector = False\<rparr>)]"

definition modes :: "Mode list" where
  "modes =
     [\<lparr>key_mode = js ''-'', name_mode = js ''Clear'', style = [],
       selectedStyle = None, behaviorKey = js ''clear''\<rparr>,
      \<lparr>key_mode = js ''f'', name_mode = js ''Fodder'', style = js ''text-yellow-500'',
       selectedStyle = None, behaviorKey = js ''fodder''\<rparr>,
      \<lparr>key_mode = js ''w'', name_mode = js ''Wordplay Indicator'',
       style = js ''text-pink-500'', selectedStyle = None,
       behaviorKey = js ''wordplayIndicator''\<rparr>,
      \<lparr>key_mode = js ''s'', name_mode = js ''Synonym'', style = js ''text-green-500'',
       selectedStyle = Some (js ''bg-green-500/10''), behaviorKey = js ''synonym''\<rparr>,
      \<lparr>key_mode = js ''a'', name_mode = js ''Abbreviation'',
       style = js ''text-green-700'', selectedStyle = None,
       behaviorKey = js ''abbreviation''\<rparr>,
      \<lparr>key_mode = js ''d'', name_mode = js ''Definition'', style = js ''text-red-500'',
       selectedStyle = None, behaviorKey = js ''definition''\<rparr>]"

definition wordplayTypes :: "WordplayType list" where
  "wordplayTypes =
     [\<lparr>key = js ''anag'', name = js ''Anagram'', symbol = [0x27F3]\<rparr>,
      \<lparr>key = js ''rev'', name = js ''Reversal'', symbol = [0x2190]\<rparr>,
      \<lparr>key = js ''cont'', name = js ''Container'', symbol = [0x2282]\<rparr>,
      \<lparr>key = js ''hid'', name = js ''Hidden'', symbol = [0x2026]\<rparr>,
      \<lparr>key = js ''del'', name = js ''Deletion'', symbol = [0x2702]\<rparr>,
      \<lparr>key = js ''first'', name = js ''First letter'', symbol = [0x2191]\<rparr>,
      \<lparr>key = js ''last'', name = js ''Last letter'', symbol = [0x2193]\<rparr>,
      \<lparr>key = js ''homo'', name = js ''Homophone'', symbol = [0x266A]\<rparr>,
      \<lparr>key = js ''other'', name = js ''Other wordplay'', symbol = js ''?''\<rparr>]"

section \<open>The reconciler and the field edits (ClueHighlighter.tsx)\<close>

datatype error = TypeError

text \<open>\<open>xs.findIndex(p)\<close>: the first index whose element satisfies \<open>p\<close>, or \<open>-1\<close>.\<close>

fun findIndexFrom :: "int \<Rightarrow> ('a \<Rightarrow> bool) \<Rightarrow> 'a list \<Rightarrow> int" where
  "findIndexFrom i p [] = - 1"
| "findIndexFrom i p (x # xs) = (if p x then i else findIndexFrom (i + 1) p xs)"

definition findIndex :: "('a \<Rightarrow> bool) \<Rightarrow> 'a list \<Rightarrow> int" where
  "findIndex p xs = findIndexFrom 0 p xs"

text \<open>The predicate of both \<open>filter\<close> calls: the segments that stay.\<close>

definition keepSegment :: "int \<Rightarrow> int \<Rightarrow> Segment \<Rightarrow> bool" where
  "keepSegment start' end' s = (end_seg s < start' \<or> start s > end')"

text \<open>
  \<open>addOrUpdateSegment(start, end)\<close>, with what it reads from its closure as
  arguments: the clue \<open>text\<close>, the \<open>segments\<close> and the \<open>currentMode\<close>. \<open>uuid\<close> is
  the string \<open>crypto.randomUUID()\<close> returns. The result is the collection handed
  to \<open>onSegmentsChange\<close>, or the \<open>TypeError\<close> raised by
  \<open>behavior.getDefaultResolution\<close> when the mode's \<open>behaviorKey\<close> has no
  descriptor.
\<close>

definition addOrUpdateSegment ::
  "(js_string \<Rightarrow> js_string) \<Rightarrow> js_string \<Rightarrow> js_string \<Rightarrow> Segment list \<Rightarrow> Mode \<Rightarrow>
     int \<Rightarrow> int \<Rightarrow> error + Segment list" where
  "addOrUpdateSegment up uuid text segments currentMode start' end' =
     (if behaviorKey currentMode = js ''clear''
      then Inr (filter (keepSegment start' end') segments)
      else
        let segmentText = slice text start' (end' + 1) in
        case segmentBehaviors up (behaviorKey currentMode) of
          None \<Rightarrow> Inl TypeError
        | Some behavior \<Rightarrow>
            let defaultResolution = getDefaultResolution behavior segmentText;
                existingIndex = findIndex (\<lambda>s. start s = start' \<and> end_seg s = end') segments
            in if existingIndex \<ge> 0
               then Inr (map (\<lambda>(i, s).
                           if int i = existingIndex
                           then s\<lparr>mode := currentMode,
                                  resolution := getDefaultResolution behavior (text_seg s)\<rparr>
                           else s)
                         (enumerate 0 segments))
               else Inr (filter (keepSegment start' end') segments @
                         [\<lparr>id_seg = uuid, start = start', end_seg = end',
                           text_seg = segmentText, mode = currentMode,
                           resolution = defaultResolution, wordplayType = None\<rparr>]))"

definition updateResolution :: "Segment list \<Rightarrow> js_string \<Rightarrow> js_string \<Rightarrow> Segment list" where
  "updateResolution segments i r =
     map (\<lambda>s. if id_seg s = i then s\<lparr>resolution := r\<rparr> else s) segments"

definition updateWordplayType ::
  "Segment list \<Rightarrow> js_string \<Rightarrow> WordplayType option \<Rightarrow> Segment list" where
  "updateWordplayType segments i w =
     map (\<lambda>s. if id_seg s = i then s\<lparr>wordplayType := w\<rparr> else s) segments"

text \<open>
  The summary line, with its three callbacks named: \<open>inSummary\<close> is the
  predicate of the \<open>filter\<close> (a string is truthy when it is not empty, an optional
  object when it is present) and \<open>summaryItem\<close> the function of the \<open>map\<close>.
  \<open>Array.prototype.sort\<close> is stable, as \<open>sort_key\<close> is; the separator is a space,
  the arrow U+2192 and a space.
\<close>

definition inSummary :: "Segment \<Rightarrow> bool" where
  "inSummary s = (resolution s \<noteq> [] \<or> wordplayType s \<noteq> None)"

definition summaryItem :: "Segment \<Rightarrow> js_string" where
  "summaryItem s = (case wordplayType s of Some w \<Rightarrow> name w | None \<Rightarrow> resolution s)"

definition separator :: js_string where
  "separator = [0x20, 0x2192, 0x20]"

definition summary :: "Segment list \<Rightarrow> js_string" where
  "summary segments =
     join separator (map summaryItem (sort_key start (filter inSummary segments)))"

section \<open>The notions of the specification\<close>

text \<open>
  The overlap predicate in the specification's words: two inclusive ranges
  overlap iff \<open>a.start <= b.end && b.start <= a.end\<close>.
\<close>

definition isOverlapping_spec :: "int \<times> int \<Rightarrow> int \<times> int \<Rightarrow> bool" where
  "isOverlapping_spec a b = (fst a \<le> snd b \<and> fst b \<le> snd a)"

definition range_of :: "Segment \<Rightarrow> int \<times> int" where
  "range_of s = (start s, end_seg s)"

text \<open>No two segments of the collection, at different positions, overlap.\<close>

fun noOverlaps :: "Segment list \<Rightarrow> bool" where
  "noOverlaps [] = True"
| "noOverlaps (s # ss) =
     (list_all (\<lambda>t. \<not> isOverlapping_spec (range_of s) (range_of t)) ss \<and> noOverlaps ss)"

text \<open>
  \<open>defaultResolution(mode, text)\<close> of the specification: the descriptor of the
  mode's \<open>behaviorKey\<close> applied to the text, as lines 338 and 339 of the
  reconciler compute it.
\<close>

definition defaultResolution ::
  "(js_string \<Rightarrow> js_string) \<Rightarrow> js_string \<Rightarrow> js_string \<Rightarrow> error + js_string" where
  "defaultResolution up k text =
     (case segmentBehaviors up k of
        None \<Rightarrow> Inl TypeError
      | Some behavior \<Rightarrow> Inr (getDefaultResolution behavior text))"

text \<open>
  The whitespace-delimited words of a text, in the specification's sense: the
  maximal runs of code units that are not whitespace.
\<close>

function words_spec :: "js_string \<Rightarrow> js_string list" where
  "words_spec s =
     (case dropWhile isSpace s of
        [] \<Rightarrow> []
      | c # cs \<Rightarrow> (c # takeWhile (\<lambda>x. \<not> isSpace x) cs) #
                 words_spec (dropWhile (\<lambda>x. \<not> isSpace x) cs))"
  by pat_completeness auto
termination
proof (relation "measure length", goal_cases)
  case 1
  show ?case by simp
next
  case (2 s c cs)
  have "length (dropWhile (\<lambda>x. \<not> isSpace x) cs) \<le> length cs"
    by (rule length_dropWhile_le)
  moreover have "length (dropWhile isSpace s) \<le> length s"
    by (rule length_dropWhile_le)
  ultimately show ?case using 2 by simp
qed

section \<open>Example data\<close>

text \<open>
  The clue of the specification's scenario and three segments on it: \<open>A lot\<close>
  tagged as fodder, \<open>to\<close> tagged as a synonym with a resolution typed by hand, and
  \<open>change\<close> tagged as a wordplay indicator classified as an anagram.
\<close>

definition clue :: js_string where
  "clue = js ''A lot to change''"

definition segmentA :: Segment where
  "segmentA = \<lparr>id_seg = js ''id-1'', start = 0, end_seg = 4, text_seg = js ''A lot'',
     mode = modes ! 1, resolution = js ''ALOT'', wordplayType = None\<rparr>"

definition segmentB :: Segment where
  "segmentB = \<lparr>id_seg = js ''id-2'', start = 6, end_seg = 7, text_seg = js ''to'',
     mode = modes ! 3, resolution = js ''TWO'', wordplayType = None\<rparr>"

definition segmentC :: Segment where
  "segmentC = \<lparr>id_seg = js ''id-3'', start = 9, end_seg = 14, text_seg = js ''change'',
     mode = modes ! 2, resolution = [], wordplayType = Some (wordplayTypes ! 0)\<rparr>"


declare words_spec.simps [simp del]

section \<open>Lemmas on strings\<close>

lemma join_empty_singletons: "join [] (map (\<lambda>c. [c]) xs) = xs"
  by (induction xs rule: induct_list012) auto

lemma join_empty_concat: "join [] xs = concat xs"
  by (induction xs rule: induct_list012) auto

lemma words_spec_dropWhile: "words_spec (dropWhile isSpace s) = words_spec s"
  by (subst (1 2) words_spec.simps) simp

lemma words_spec_space: "isSpace c \<Longrightarrow> words_spec (c # cs) = words_spec cs"
  using words_spec_dropWhile [of "c # cs"] words_spec_dropWhile [of cs] by simp

lemma words_spec_nonspace:
  "\<not> isSpace c \<Longrightarrow>
   words_spec (c # cs) =
     (c # takeWhile (\<lambda>x. \<not> isSpace x) cs) # words_spec (dropWhile (\<lambda>x. \<not> isSpace x) cs)"
  by (subst words_spec.simps) simp

lemma words_spec_Nil: "words_spec [] = []"
  by (subst words_spec.simps) simp

lemma initials_splitSpaces:
  "concat (map (\<lambda>word. case word of [] \<Rightarrow> [] | c # cs \<Rightarrow> [c]) (splitSpaces cur s)) =
     (if cur = [] then map hd (words_spec s)
      else hd cur # map hd (words_spec (dropWhile (\<lambda>x. \<not> isSpace x) s)))"
proof (induction cur s rule: splitSpaces.induct)
  case (1 cur)
  show ?case by (cases cur) (simp_all add: words_spec_Nil)
next
  case (2 cur c cs)
  show ?case
  proof (cases "isSpace c")
    case True
    with "2.IH"(1) show ?thesis
      by (cases cur) (simp_all add: words_spec_space words_spec_dropWhile)
  next
    case False
    with "2.IH"(2) show ?thesis
      by (cases cur) (simp_all add: words_spec_nonspace)
  qed
qed

section \<open>Lemmas on ranges, searching and updating\<close>

lemma keepSegment_iff: "keepSegment st en s \<longleftrightarrow> \<not> isOverlapping_spec (range_of s) (st, en)"
  by (auto simp: keepSegment_def isOverlapping_spec_def range_of_def)

lemma isOverlapping_spec_sym: "isOverlapping_spec a b = isOverlapping_spec b a"
  by (auto simp: isOverlapping_spec_def)

lemma noOverlaps_filter: "noOverlaps ss \<Longrightarrow> noOverlaps (filter p ss)"
  by (induction ss) (auto simp: list_all_iff)

lemma noOverlaps_snoc:
  "noOverlaps (ss @ [n]) \<longleftrightarrow>
     noOverlaps ss \<and> list_all (\<lambda>s. \<not> isOverlapping_spec (range_of s) (range_of n)) ss"
  by (induction ss) (auto simp: list_all_iff)

lemma noOverlaps_ranges:
  "map range_of ss = map range_of ts \<Longrightarrow> noOverlaps ss = noOverlaps ts"
proof (induction ss arbitrary: ts)
  case Nil
  then show ?case by simp
next
  case (Cons s ss)
  then obtain t ts' where ts: "ts = t # ts'" "range_of s = range_of t"
    "map range_of ss = map range_of ts'"
    by (cases ts) auto
  have "list_all (\<lambda>u. \<not> isOverlapping_spec (range_of t) u) (map range_of ss) =
        list_all (\<lambda>u. \<not> isOverlapping_spec (range_of t) u) (map range_of ts')"
    using ts(3) by simp
  then have "list_all (\<lambda>u. \<not> isOverlapping_spec (range_of t) (range_of u)) ss =
        list_all (\<lambda>u. \<not> isOverlapping_spec (range_of t) (range_of u)) ts'"
    by (simp add: list_all_iff)
  with Cons.IH [OF ts(3)] ts show ?case by simp
qed

lemma noOverlaps_nth:
  "noOverlaps ss \<Longrightarrow> i < length ss \<Longrightarrow> j < length ss \<Longrightarrow> i \<noteq> j \<Longrightarrow>
   \<not> isOverlapping_spec (range_of (ss ! i)) (range_of (ss ! j))"
proof (induction ss arbitrary: i j)
  case Nil
  then show ?case by simp
next
  case (Cons s ss)
  show ?case
  proof (cases i)
    case 0
    with Cons.prems obtain j' where "j = Suc j'" "j' < length ss" by (cases j) auto
    with 0 Cons.prems(1) show ?thesis by (auto simp: list_all_iff)
  next
    case (Suc i')
    show ?thesis
    proof (cases j)
      case 0
      with Suc Cons.prems show ?thesis
        by (auto simp: list_all_iff isOverlapping_spec_sym [of "range_of (ss ! i')"])
    next
      case (Suc j')
      with \<open>i = Suc i'\<close> Cons.prems Cons.IH [of i' j'] show ?thesis by simp
    qed
  qed
qed

lemma findIndexFrom_takeWhile:
  "findIndexFrom i p xs =
     (if list_ex p xs then i + int (length (takeWhile (\<lambda>x. \<not> p x) xs)) else - 1)"
  by (induction xs arbitrary: i) auto

lemma findIndex_takeWhile:
  "findIndex p xs =
     (if list_ex p xs then int (length (takeWhile (\<lambda>x. \<not> p x) xs)) else - 1)"
  by (simp add: findIndex_def findIndexFrom_takeWhile)

lemma map_enumerate_update_aux:
  "k < length xs \<Longrightarrow>
   map (\<lambda>(i, s). if int i = int (n + k) then f s else s) (enumerate n xs) = xs[k := f (xs ! k)]"
proof (induction xs arbitrary: n k)
  case Nil
  then show ?case by simp
next
  case (Cons x xs)
  show ?case
  proof (cases k)
    case 0
    have "map (\<lambda>(i, s). if int i = int n then f s else s) (enumerate (Suc n) xs) = xs"
      by (rule nth_equalityI) (auto simp: nth_enumerate_eq)
    with 0 show ?thesis by simp
  next
    case (Suc k')
    with Cons.prems Cons.IH [of k' "Suc n"] show ?thesis by simp
  qed
qed

lemma map_enumerate_update:
  "k < length xs \<Longrightarrow>
   map (\<lambda>(i, s). if int i = int k then f s else s) (enumerate 0 xs) = xs[k := f (xs ! k)]"
  using map_enumerate_update_aux [where n = 0 and k = k and xs = xs and f = f] by simp

lemma firstMatch_props:
  "list_ex p xs \<Longrightarrow>
   length (takeWhile (\<lambda>x. \<not> p x) xs) < length xs \<and>
   p (xs ! length (takeWhile (\<lambda>x. \<not> p x) xs)) \<and>
   (\<forall>j<length (takeWhile (\<lambda>x. \<not> p x) xs). \<not> p (xs ! j))"
  by (induction xs) (auto simp: less_Suc_eq_0_disj)

section \<open>The branches of the reconciler\<close>

lemma addOrUpdateSegment_clear:
  "behaviorKey M = js ''clear'' \<Longrightarrow>
   addOrUpdateSegment up uuid T S M st en = Inr (filter (keepSegment st en) S)"
  by (simp add: addOrUpdateSegment_def)

lemma addOrUpdateSegment_unknown:
  "behaviorKey M \<noteq> js ''clear'' \<Longrightarrow> segmentBehaviors up (behaviorKey M) = None \<Longrightarrow>
   addOrUpdateSegment up uuid T S M st en = Inl TypeError"
  by (simp add: addOrUpdateSegment_def)

lemma addOrUpdateSegment_retag:
  assumes "behaviorKey M \<noteq> js ''clear''"
    and "segmentBehaviors up (behaviorKey M) = Some b"
    and "list_ex (\<lambda>s. start s = st \<and> end_seg s = en) S"
  shows "addOrUpdateSegment up uuid T S M st en =
     Inr (S[length (takeWhile (\<lambda>s. \<not> (start s = st \<and> end_seg s = en)) S) :=
            (S ! length (takeWhile (\<lambda>s. \<not> (start s = st \<and> end_seg s = en)) S))
              \<lparr>mode := M,
               resolution := getDefaultResolution b
                 (text_seg (S ! length (takeWhile (\<lambda>s. \<not> (start s = st \<and> end_seg s = en)) S)))\<rparr>])"
proof -
  let ?k = "length (takeWhile (\<lambda>s. \<not> (start s = st \<and> end_seg s = en)) S)"
  have k: "?k < length S"
    using firstMatch_props [OF assms(3)] by simp
  have idx: "findIndex (\<lambda>s. start s = st \<and> end_seg s = en) S = int ?k"
    using assms(3) by (simp add: findIndex_takeWhile)
  show ?thesis
    using assms(1,2) map_enumerate_update [OF k,
        of "\<lambda>s. s\<lparr>mode := M, resolution := getDefaultResolution b (text_seg s)\<rparr>"]
    by (simp add: addOrUpdateSegment_def idx Let_def)
qed

lemma addOrUpdateSegment_insert:
  assumes "behaviorKey M \<noteq> js ''clear''"
    and "segmentBehaviors up (behaviorKey M) = Some b"
    and "\<not> list_ex (\<lambda>s. start s = st \<and> end_seg s = en) S"
  shows "addOrUpdateSegment up uuid T S M st en =
     Inr (filter (keepSegment st en) S @
          [\<lparr>id_seg = uuid, start = st, end_seg = en, text_seg = slice T st (en + 1),
            mode = M, resolution = getDefaultResolution b (slice T st (en + 1)),
            wordplayType = None\<rparr>])"
  using assms by (simp add: addOrUpdateSegment_def findIndex_takeWhile Let_def)

lemma modes_have_behavior:
  "segmentBehaviors up k = None \<Longrightarrow> k \<notin> behaviorKey ` set modes"
  by (auto simp: segmentBehaviors_def modes_def split: if_splits)

lemma map_range_of_update:
  "k < length xs \<Longrightarrow> range_of x = range_of (xs ! k) \<Longrightarrow>
   map range_of (xs[k := x]) = map range_of xs"
  by (simp add: map_update list_update_same_conv)



lemma filter_keepSegment:
  "filter (keepSegment st en) segments =
   filter (\<lambda>s. \<not> isOverlapping_spec (range_of s) (st, en)) segments"
  by (induction segments) (simp_all add: keepSegment_iff)


lemma list_ex_nth_conv:
  "i < length xs \<Longrightarrow> p (xs ! i) \<Longrightarrow> list_ex p xs"
  by (auto simp: list_ex_iff)

lemma firstMatch_unique:
  assumes "i < length xs" and "p (xs ! i)" and "\<forall>j<i. \<not> p (xs ! j)"
  shows "length (takeWhile (\<lambda>x. \<not> p x) xs) = i"
proof -
  have ex: "list_ex p xs"
    using assms(1,2) by (rule list_ex_nth_conv)
  let ?k = "length (takeWhile (\<lambda>x. \<not> p x) xs)"
  from firstMatch_props [OF ex] have k: "?k < length xs" "p (xs ! ?k)" "\<forall>j<?k. \<not> p (xs ! j)"
    by simp_all
  have "\<not> ?k < i" using k(2) assms(3) by blast
  moreover have "\<not> i < ?k" using k(3) assms(2) by blast
  ultimately show ?thesis by simp
qed

lemma addOrUpdateSegment_retag_at:
  assumes "behaviorKey M \<noteq> js ''clear''"
    and "segmentBehaviors up (behaviorKey M) = Some b"
    and "i < length segments"
    and "start (segments ! i) = st \<and> end_seg (segments ! i) = en"
    and "\<forall>j<i. \<not> (start (segments ! j) = st \<and> end_seg (segments ! j) = en)"
  shows "addOrUpdateSegment up uuid T segments M st en =
     Inr (segments[i := (segments ! i)
            \<lparr>mode := M, resolution := getDefaultResolution b (text_seg (segments ! i))\<rparr>])"
proof -
  have ex: "list_ex (\<lambda>s. start s = st \<and> end_seg s = en) segments"
    using assms(3,4) by (rule list_ex_nth_conv)
  have "length (takeWhile (\<lambda>s. \<not> (start s = st \<and> end_seg s = en)) segments) = i"
    using assms(3-5) by (rule firstMatch_unique)
  then show ?thesis
    using addOrUpdateSegment_retag [OF assms(1,2) ex, of uuid T] by simp
qed

lemma segmentBehaviors_empty:
  "k = js ''synonym'' \<or> k = js ''wordplayIndicator'' \<or> k = js ''definition'' \<or> k = js ''clear''
   \<Longrightarrow> \<exists>b. segmentBehaviors up k = Some b \<and> (\<forall>t. getDefaultResolution b t = [])"
  by (auto simp: segmentBehaviors_def js_def)

lemma take1_firstUnit: "(case word of [] \<Rightarrow> [] | c # cs \<Rightarrow> [c]) = take 1 word"
  by (cases word) simp_all

section \<open>The claims\<close>

text \<open>
  C1. Whenever the segments of a clue are pairwise non-overlapping, the collection
  the reconciler produces is pairwise non-overlapping again: in the erase branch,
  at an exact re-selection, and when overlapping segments are removed and the new
  one is appended, for every clue text and every selection (also one with
  \<open>end < start\<close>). The reconciler produces a collection for every mode of the
  configuration; for a mode outside it whose \<open>behaviorKey\<close> has no descriptor it
  raises a \<open>TypeError\<close> and produces none.
\<close>

theorem reconcile_keeps_noOverlaps:
  assumes "noOverlaps segments"
  shows "(\<exists>segments'. addOrUpdateSegment up uuid T segments M st en = Inr segments' \<and>
            noOverlaps segments') \<or>
         (addOrUpdateSegment up uuid T segments M st en = Inl TypeError \<and>
            behaviorKey M \<notin> behaviorKey ` set modes)"
proof (cases "behaviorKey M = js ''clear''")
  case True
  then show ?thesis
    using assms by (simp add: addOrUpdateSegment_clear noOverlaps_filter)
next
  case notClear: False
  show ?thesis
  proof (cases "segmentBehaviors up (behaviorKey M)")
    case None
    then show ?thesis
      using notClear by (simp add: addOrUpdateSegment_unknown modes_have_behavior)
  next
    case (Some b)
    show ?thesis
    proof (cases "list_ex (\<lambda>s. start s = st \<and> end_seg s = en) segments")
      case True
      let ?k = "length (takeWhile (\<lambda>s. \<not> (start s = st \<and> end_seg s = en)) segments)"
      have "?k < length segments"
        using firstMatch_props [OF True] by simp
      then have "map range_of (segments[?k := (segments ! ?k)
          \<lparr>mode := M, resolution := getDefaultResolution b (text_seg (segments ! ?k))\<rparr>]) =
          map range_of segments"
        by (rule map_range_of_update) (simp add: range_of_def)
      then have "noOverlaps (segments[?k := (segments ! ?k)
          \<lparr>mode := M, resolution := getDefaultResolution b (text_seg (segments ! ?k))\<rparr>]) =
          noOverlaps segments"
        by (rule noOverlaps_ranges)
      then show ?thesis
        using assms
        by (simp add: addOrUpdateSegment_retag [OF notClear Some True])
    next
      case False
      have "list_all (\<lambda>s. \<not> isOverlapping_spec (range_of s) (st, en))
              (filter (keepSegment st en) segments)"
        by (simp add: list_all_iff keepSegment_iff)
      then show ?thesis
        using assms
        by (simp add: addOrUpdateSegment_insert [OF notClear Some False] noOverlaps_snoc
            noOverlaps_filter range_of_def)
    qed
  qed
qed

theorem reconcile_keeps_noOverlaps_witness:
  "noOverlaps [segmentA, segmentB, segmentC] \<and>
   (\<exists>segments'. addOrUpdateSegment toUpperCaseASCII (js ''id-9'') clue
        [segmentA, segmentB, segmentC] (modes ! 4) 3 6 = Inr segments' \<and>
      noOverlaps segments')"
proof -
  have h: "noOverlaps [segmentA, segmentB, segmentC]"
    by (simp add: segmentA_def segmentB_def segmentC_def isOverlapping_spec_def range_of_def)
  have m: "behaviorKey (modes ! 4) \<in> behaviorKey ` set modes"
    by (simp add: modes_def)
  show ?thesis
    using h m reconcile_keeps_noOverlaps [OF h, of toUpperCaseASCII "js ''id-9''" clue
        "modes ! 4" 3 6]
    by blast
qed




text \<open>
  C3. Under a mode that is not the erase mode and has a descriptor, when some
  segment \<open>e\<close> of the collection has exactly the selected start and end, the
  reconciler returns the collection with one position changed: the first segment
  with that range gets the active mode and the resolution
  \<open>defaultResolution(mode, its stored text)\<close>, computed from the stored text and
  not from a slice of the clue; its id, start, end, text and wordplayType stay, no
  segment is removed or created, and every other segment is unchanged. In a
  collection without overlaps (and \<open>st \<le> en\<close>) that first segment is \<open>e\<close> itself.
\<close>

theorem retag_changes_mode_and_resolution:
  assumes "behaviorKey M \<noteq> js ''clear''"
    and "segmentBehaviors up (behaviorKey M) = Some b"
    and "e \<in> set segments" and "start e = st" and "end_seg e = en"
  shows "\<exists>i<length segments.
      start (segments ! i) = st \<and> end_seg (segments ! i) = en \<and>
      (\<forall>j<i. \<not> (start (segments ! j) = st \<and> end_seg (segments ! j) = en)) \<and>
      defaultResolution up (behaviorKey M) (text_seg (segments ! i)) =
        Inr (getDefaultResolution b (text_seg (segments ! i))) \<and>
      addOrUpdateSegment up uuid T segments M st en =
        Inr (segments[i := (segments ! i)
               \<lparr>mode := M,
                resolution := getDefaultResolution b (text_seg (segments ! i))\<rparr>]) \<and>
      (noOverlaps segments \<and> st \<le> en \<longrightarrow> segments ! i = e)"
proof -
  let ?p = "\<lambda>s. start s = st \<and> end_seg s = en"
  let ?i = "length (takeWhile (\<lambda>s. \<not> ?p s) segments)"
  have ex: "list_ex ?p segments"
    using assms(3-5) by (auto simp: list_ex_iff)
  from firstMatch_props [OF ex]
  have i: "?i < length segments" "?p (segments ! ?i)" "\<forall>j<?i. \<not> ?p (segments ! j)"
    by simp_all
  have d: "defaultResolution up (behaviorKey M) (text_seg (segments ! ?i)) =
        Inr (getDefaultResolution b (text_seg (segments ! ?i)))"
    using assms(2) by (simp add: defaultResolution_def)
  have u: "noOverlaps segments \<and> st \<le> en \<longrightarrow> segments ! ?i = e"
  proof
    assume a: "noOverlaps segments \<and> st \<le> en"
    from assms(3) obtain j where j: "j < length segments" "segments ! j = e"
      by (auto simp: in_set_conv_nth)
    have "isOverlapping_spec (range_of (segments ! ?i)) (range_of (segments ! j))"
      using i(2) j(2) assms(4,5) a by (simp add: isOverlapping_spec_def range_of_def)
    then have "?i = j"
      using noOverlaps_nth [of segments ?i j] a i(1) j(1) by blast
    then show "segments ! ?i = e"
      using j(2) by simp
  qed
  show ?thesis
    using i d u addOrUpdateSegment_retag [OF assms(1,2) ex, of uuid T] by blast
qed

theorem retag_changes_mode_and_resolution_witness:
  "behaviorKey (modes ! 1) \<noteq> js ''clear'' \<and>
   segmentB \<in> set [segmentA, segmentB, segmentC] \<and>
   start segmentB = 6 \<and> end_seg segmentB = 7 \<and>
   noOverlaps [segmentA, segmentB, segmentC] \<and> (6::int) \<le> 7 \<and>
   slice (js ''A lot of change'') 6 (7 + 1) = js ''of'' \<and>
   addOrUpdateSegment toUpperCaseASCII (js ''id-9'') (js ''A lot of change'')
     [segmentA, segmentB, segmentC] (modes ! 1) 6 7 =
     Inr [segmentA, segmentB\<lparr>mode := modes ! 1, resolution := js ''TO''\<rparr>, segmentC] \<and>
   segmentB\<lparr>mode := modes ! 1, resolution := js ''TO''\<rparr> =
     \<lparr>id_seg = js ''id-2'', start = 6, end_seg = 7, text_seg = js ''to'',
      mode = modes ! 1, resolution = js ''TO'', wordplayType = None\<rparr>"
proof -
  let ?b = "\<lparr>getDefaultResolution =
      (\<lambda>text. join [] (map (\<lambda>c. [c]) (toUpperCaseASCII (removeSpaces text)))),
      showResolutionInput = True, resolutionEditable = False,
      showWordplaySelector = False\<rparr>"
  have 1: "behaviorKey (modes ! 1) \<noteq> js ''clear''"
    by (simp add: modes_def js_def)
  have 2: "segmentBehaviors toUpperCaseASCII (behaviorKey (modes ! 1)) = Some ?b"
    by (simp add: segmentBehaviors_def modes_def js_def)
  have 3: "segmentB \<in> set [segmentA, segmentB, segmentC]"
    by simp
  have 4: "start segmentB = 6" "end_seg segmentB = 7"
    by (simp_all add: segmentB_def)
  have 5: "start segmentA \<noteq> 6" "start segmentC \<noteq> 6"
    by (simp_all add: segmentA_def segmentC_def)
  have 6: "getDefaultResolution ?b (text_seg segmentB) = js ''TO''"
    by (simp add: segmentB_def removeSpaces_def isSpace_def toUpperCaseASCII_def js_def)
  have 7: "slice (js ''A lot of change'') 6 (7 + 1) = js ''of''"
    by (simp add: slice_def js_def)
  from retag_changes_mode_and_resolution [OF 1 2 3 4, of "js ''id-9''" "js ''A lot of change''"]
  obtain i where i: "i < length [segmentA, segmentB, segmentC]"
      "start ([segmentA, segmentB, segmentC] ! i) = 6"
      "addOrUpdateSegment toUpperCaseASCII (js ''id-9'') (js ''A lot of change'')
         [segmentA, segmentB, segmentC] (modes ! 1) 6 7 =
       Inr ([segmentA, segmentB, segmentC][i := ([segmentA, segmentB, segmentC] ! i)
         \<lparr>mode := modes ! 1,
          resolution := getDefaultResolution ?b (text_seg ([segmentA, segmentB, segmentC] ! i))\<rparr>])"
    by blast
  have 8: "noOverlaps [segmentA, segmentB, segmentC]"
    by (simp add: segmentA_def segmentB_def segmentC_def isOverlapping_spec_def range_of_def)
  have "i = 1"
    using i(1,2) 5 by (auto simp: less_Suc_eq numeral_3_eq_3)
  then show ?thesis
    using 1 4 6 7 8 i(3) by (simp add: segmentB_def)
qed

text \<open>
  C4. In the erase mode (\<open>behaviorKey\<close> \<open>clear\<close>) the reconciler returns the
  collection without the segments whose inclusive range overlaps the selection:
  exactly those are removed, every other segment stays as it is and in order, and
  no segment is created; this holds for every collection and every selection.
\<close>

theorem erase_removes_overlapping:
  assumes "behaviorKey M = js ''clear''"
  shows "addOrUpdateSegment up uuid T segments M st en =
     Inr (filter (\<lambda>s. \<not> isOverlapping_spec (range_of s) (st, en)) segments)"
  using assms by (simp add: addOrUpdateSegment_clear filter_keepSegment)

theorem erase_removes_overlapping_witness:
  "behaviorKey (modes ! 0) = js ''clear'' \<and>
   addOrUpdateSegment toUpperCaseASCII (js ''id-9'') clue [segmentA, segmentB, segmentC]
     (modes ! 0) 3 6 = Inr [segmentC]"
  using erase_removes_overlapping [of "modes ! 0" toUpperCaseASCII "js ''id-9''" clue
      "[segmentA, segmentB, segmentC]" 3 6]
  by (simp add: modes_def isOverlapping_spec_def range_of_def segmentA_def segmentB_def
      segmentC_def)

text \<open>
  C5. \<open>defaultResolution\<close> is a function of the mode's behavior key and the span
  text alone, and for every text: under fodder it is the text without its
  whitespace code units, in upper case; under abbreviation it is the upper case
  of the first code units of the pieces of \<open>split(/\s+/)\<close>, where an empty piece
  gives nothing, which is the upper case of the first code units of the
  whitespace-delimited words; under synonym, definition, wordplay indicator and
  clear it is the empty string. \<open>A Lot\<close> gives \<open>ALOT\<close> under fodder,
  \<open>A Lot To Change\<close> gives \<open>ALTC\<close> under abbreviation, and \<open>anything\<close> gives the
  empty string under synonym. The upper-case mapping \<open>up\<close> is any function; the
  three examples use the mapping on ASCII text.
\<close>

theorem defaultResolution_by_mode:
  "defaultResolution up (js ''fodder'') t = Inr (up (filter (\<lambda>c. \<not> isSpace c) t)) \<and>
   defaultResolution up (js ''abbreviation'') t =
     Inr (up (concat (map (take 1) (splitSpaces [] t)))) \<and>
   defaultResolution up (js ''abbreviation'') t = Inr (up (map hd (words_spec t))) \<and>
   defaultResolution up (js ''synonym'') t = Inr [] \<and>
   defaultResolution up (js ''definition'') t = Inr [] \<and>
   defaultResolution up (js ''wordplayIndicator'') t = Inr [] \<and>
   defaultResolution up (js ''clear'') t = Inr [] \<and>
   defaultResolution toUpperCaseASCII (js ''fodder'') (js ''A Lot'') = Inr (js ''ALOT'') \<and>
   defaultResolution toUpperCaseASCII (js ''abbreviation'') (js ''A Lot To Change'') =
     Inr (js ''ALTC'') \<and>
   defaultResolution toUpperCaseASCII (js ''synonym'') (js ''anything'') = Inr []"
proof -
  have fodder: "\<And>u s. defaultResolution u (js ''fodder'') s = Inr (u (filter (\<lambda>c. \<not> isSpace c) s))"
    by (simp add: defaultResolution_def segmentBehaviors_def join_empty_singletons
        removeSpaces_def)
  have abbr: "\<And>u s. defaultResolution u (js ''abbreviation'') s =
      Inr (u (concat (map (\<lambda>word. case word of [] \<Rightarrow> [] | c # cs \<Rightarrow> [c]) (splitSpaces [] s))))"
    by (simp add: defaultResolution_def segmentBehaviors_def join_empty_concat js_def)
  have abbr1: "\<And>u s. defaultResolution u (js ''abbreviation'') s =
      Inr (u (concat (map (take 1) (splitSpaces [] s))))"
    by (simp only: abbr take1_firstUnit)
  have abbr2: "\<And>u s. defaultResolution u (js ''abbreviation'') s = Inr (u (map hd (words_spec s)))"
    by (simp only: abbr initials_splitSpaces) simp
  have empty: "\<And>u s. defaultResolution u (js ''synonym'') s = Inr []"
    "\<And>u s. defaultResolution u (js ''definition'') s = Inr []"
    "\<And>u s. defaultResolution u (js ''wordplayIndicator'') s = Inr []"
    "\<And>u s. defaultResolution u (js ''clear'') s = Inr []"
    by (simp_all add: defaultResolution_def segmentBehaviors_def js_def)
  have ex1: "toUpperCaseASCII (filter (\<lambda>c. \<not> isSpace c) (js ''A Lot'')) = js ''ALOT''"
    by (simp add: toUpperCaseASCII_def isSpace_def js_def)
  have ex2: "toUpperCaseASCII (concat (map (take 1) (splitSpaces [] (js ''A Lot To Change'')))) =
      js ''ALTC''"
    by (simp add: toUpperCaseASCII_def isSpace_def js_def)
  have e1: "defaultResolution toUpperCaseASCII (js ''fodder'') (js ''A Lot'') = Inr (js ''ALOT'')"
    by (simp only: fodder ex1)
  have e2: "defaultResolution toUpperCaseASCII (js ''abbreviation'') (js ''A Lot To Change'') =
      Inr (js ''ALTC'')"
    by (simp only: abbr1 ex2)
  show ?thesis
    by (intro conjI; (rule fodder abbr1 abbr2 empty e1 e2))
qed

theorem defaultResolution_by_mode_witness:
  "defaultResolution toUpperCaseASCII (js ''fodder'') (js '' big  deal '') = Inr (js ''BIGDEAL'') \<and>
   defaultResolution toUpperCaseASCII (js ''abbreviation'') (js '' big  deal '') =
     Inr (js ''BD'') \<and>
   splitSpaces [] (js '' big  deal '') = [[], js ''big'', js ''deal'', []] \<and>
   words_spec (js '' big  deal '') = [js ''big'', js ''deal'']"
proof -
  have 1: "toUpperCaseASCII (filter (\<lambda>c. \<not> isSpace c) (js '' big  deal '')) = js ''BIGDEAL''"
    by (simp add: toUpperCaseASCII_def isSpace_def js_def)
  have 2: "splitSpaces [] (js '' big  deal '') = [[], js ''big'', js ''deal'', []]"
    by (simp add: isSpace_def js_def)
  have 3: "words_spec (js '' big  deal '') = [js ''big'', js ''deal'']"
    by (simp add: isSpace_def js_def words_spec_space words_spec_nonspace words_spec_Nil)
  have 4: "toUpperCaseASCII (concat (map (take 1) [[], js ''big'', js ''deal'', []])) = js ''BD''"
    by (simp add: toUpperCaseASCII_def js_def)
  show ?thesis
    using defaultResolution_by_mode [of toUpperCaseASCII "js '' big  deal ''"] 1 2 3 4
    by simp
qed

text \<open>
  C6. The predicate by which both \<open>filter\<close> calls keep a segment,
  \<open>s.end < start || s.start > end\<close>, is for all integer ranges exactly the negation
  of the specification's overlap predicate (in either order of its arguments).
  So a segment that is only adjacent to the selection (\<open>s.end = start - 1\<close> or
  \<open>s.start = end + 1\<close>) is kept, and is in the collection the erase branch
  returns and in the one the insert branch returns.
\<close>

theorem keep_is_not_overlapping:
  "(keepSegment st en s \<longleftrightarrow> \<not> isOverlapping_spec (range_of s) (st, en)) \<and>
   (keepSegment st en s \<longleftrightarrow> \<not> isOverlapping_spec (st, en) (range_of s)) \<and>
   (s \<in> set segments \<and> (end_seg s = st - 1 \<or> start s = en + 1) \<longrightarrow>
      keepSegment st en s \<and>
      (behaviorKey M = js ''clear'' \<longrightarrow>
         (\<exists>segments'. addOrUpdateSegment up uuid T segments M st en = Inr segments' \<and>
            s \<in> set segments')) \<and>
      (behaviorKey M \<noteq> js ''clear'' \<and> segmentBehaviors up (behaviorKey M) \<noteq> None \<and>
       \<not> list_ex (\<lambda>s. start s = st \<and> end_seg s = en) segments \<longrightarrow>
         (\<exists>segments'. addOrUpdateSegment up uuid T segments M st en = Inr segments' \<and>
            s \<in> set segments')))"
proof (intro conjI impI)
  show "keepSegment st en s \<longleftrightarrow> \<not> isOverlapping_spec (range_of s) (st, en)"
    by (rule keepSegment_iff)
  show "keepSegment st en s \<longleftrightarrow> \<not> isOverlapping_spec (st, en) (range_of s)"
    by (simp add: keepSegment_iff isOverlapping_spec_sym [of "(st, en)"])
next
  assume "s \<in> set segments \<and> (end_seg s = st - 1 \<or> start s = en + 1)"
  then show "keepSegment st en s"
    by (auto simp: keepSegment_def)
next
  assume a: "s \<in> set segments \<and> (end_seg s = st - 1 \<or> start s = en + 1)"
    and "behaviorKey M = js ''clear''"
  then show "\<exists>segments'. addOrUpdateSegment up uuid T segments M st en = Inr segments' \<and>
      s \<in> set segments'"
    by (auto simp: addOrUpdateSegment_clear keepSegment_def)
next
  assume a: "s \<in> set segments \<and> (end_seg s = st - 1 \<or> start s = en + 1)"
    and m: "behaviorKey M \<noteq> js ''clear'' \<and> segmentBehaviors up (behaviorKey M) \<noteq> None \<and>
       \<not> list_ex (\<lambda>s. start s = st \<and> end_seg s = en) segments"
  from m obtain b where b: "segmentBehaviors up (behaviorKey M) = Some b"
    by auto
  from m have nc: "behaviorKey M \<noteq> js ''clear''"
    and nl: "\<not> list_ex (\<lambda>s. start s = st \<and> end_seg s = en) segments"
    by simp_all
  from a have "s \<in> set (filter (keepSegment st en) segments)"
    by (auto simp: keepSegment_def)
  then show "\<exists>segments'. addOrUpdateSegment up uuid T segments M st en = Inr segments' \<and>
      s \<in> set segments'"
    using addOrUpdateSegment_insert [OF nc b nl, of uuid T] by simp
qed

theorem keep_is_not_overlapping_witness:
  "segmentA \<in> set [segmentA, segmentB, segmentC] \<and> end_seg segmentA = 5 - 1 \<and>
   segmentC \<in> set [segmentA, segmentB, segmentC] \<and> start segmentC = 8 + 1 \<and>
   keepSegment 5 8 segmentA \<and> \<not> isOverlapping_spec (range_of segmentA) (5, 8) \<and>
   keepSegment 5 8 segmentC \<and> \<not> isOverlapping_spec (range_of segmentC) (5, 8) \<and>
   behaviorKey (modes ! 0) = js ''clear'' \<and>
   addOrUpdateSegment toUpperCaseASCII (js ''id-9'') clue [segmentA, segmentB, segmentC]
     (modes ! 0) 5 8 = Inr [segmentA, segmentC] \<and>
   behaviorKey (modes ! 3) \<noteq> js ''clear'' \<and>
   segmentBehaviors toUpperCaseASCII (behaviorKey (modes ! 3)) \<noteq> None \<and>
   \<not> list_ex (\<lambda>s. start s = 5 \<and> end_seg s = 8) [segmentA, segmentB, segmentC] \<and>
   (\<exists>segments'. addOrUpdateSegment toUpperCaseASCII (js ''id-9'') clue
       [segmentA, segmentB, segmentC] (modes ! 3) 5 8 = Inr segments' \<and>
      segmentA \<in> set segments' \<and> segmentC \<in> set segments')"
proof -
  have a: "segmentA \<in> set [segmentA, segmentB, segmentC] \<and> end_seg segmentA = 5 - 1"
    and c: "segmentC \<in> set [segmentA, segmentB, segmentC] \<and> start segmentC = 8 + 1"
    by (simp_all add: segmentA_def segmentC_def)
  have m0: "behaviorKey (modes ! 0) = js ''clear''"
    and m3: "behaviorKey (modes ! 3) \<noteq> js ''clear''"
    and b3: "segmentBehaviors toUpperCaseASCII (behaviorKey (modes ! 3)) \<noteq> None"
    by (simp_all add: modes_def segmentBehaviors_def js_def)
  have n: "\<not> list_ex (\<lambda>s. start s = 5 \<and> end_seg s = 8) [segmentA, segmentB, segmentC]"
    by (simp add: segmentA_def segmentB_def segmentC_def)
  have e: "addOrUpdateSegment toUpperCaseASCII (js ''id-9'') clue
      [segmentA, segmentB, segmentC] (modes ! 0) 5 8 = Inr [segmentA, segmentC]"
    using m0 by (simp add: addOrUpdateSegment_clear keepSegment_def segmentA_def segmentB_def
        segmentC_def)
  have i: "addOrUpdateSegment toUpperCaseASCII (js ''id-9'') clue
      [segmentA, segmentB, segmentC] (modes ! 3) 5 8 =
      Inr [segmentA, segmentC,
        \<lparr>id_seg = js ''id-9'', start = 5, end_seg = 8, text_seg = slice clue 5 (8 + 1),
         mode = modes ! 3, resolution = [], wordplayType = None\<rparr>]"
    using m3 n
    by (simp add: addOrUpdateSegment_def findIndex_takeWhile segmentBehaviors_def modes_def
        js_def keepSegment_def segmentA_def segmentB_def segmentC_def)
  have kA: "keepSegment 5 8 segmentA \<and> \<not> isOverlapping_spec (range_of segmentA) (5, 8)"
    using a keep_is_not_overlapping [of 5 8 segmentA "[segmentA, segmentB, segmentC]"
        "modes ! 0" toUpperCaseASCII "js ''id-9''" clue]
    by blast
  have kC: "keepSegment 5 8 segmentC \<and> \<not> isOverlapping_spec (range_of segmentC) (5, 8)"
    using c keep_is_not_overlapping [of 5 8 segmentC "[segmentA, segmentB, segmentC]"
        "modes ! 3" toUpperCaseASCII "js ''id-9''" clue]
    by blast
  have x: "\<exists>segments'. addOrUpdateSegment toUpperCaseASCII (js ''id-9'') clue
       [segmentA, segmentB, segmentC] (modes ! 3) 5 8 = Inr segments' \<and>
      segmentA \<in> set segments' \<and> segmentC \<in> set segments'"
    using i by simp
  show ?thesis
    using a c kA kC m0 m3 b3 n e x by blast
qed

text \<open>
  C7. The summary of a collection is the join, with the separator
  \<open>" \<rightarrow> "\<close> (space, U+2192, space), of the items of the kept segments in
  ascending order of \<open>start\<close>: kept are exactly the segments with a non-empty
  resolution or a wordplayType (as a multiset, so each as often as it occurs;
  segments with equal \<open>start\<close> stay in their order), and the item of a segment is
  the name of its wordplayType when it has one and its resolution otherwise. On a
  segment starting at 5 with resolution \<open>X\<close> and one starting at 0 with resolution
  \<open>Y\<close> the summary is \<open>Y \<rightarrow> X\<close>, in either order of insertion.
\<close>

theorem summary_projection:
  "(\<exists>kept.
      mset kept = mset (filter (\<lambda>s. resolution s \<noteq> [] \<or> wordplayType s \<noteq> None) segments) \<and>
      sorted (map start kept) \<and>
      (\<forall>k. filter (\<lambda>s. start s = k) kept =
           filter (\<lambda>s. start s = k)
             (filter (\<lambda>s. resolution s \<noteq> [] \<or> wordplayType s \<noteq> None) segments)) \<and>
      summary segments =
        join separator
          (map (\<lambda>s. case wordplayType s of Some w \<Rightarrow> name w | None \<Rightarrow> resolution s) kept)) \<and>
   separator = js '' '' @ [0x2192] @ js '' '' \<and>
   summary
     [\<lparr>id_seg = i1, start = 5, end_seg = e1, text_seg = t1, mode = m1,
       resolution = js ''X'', wordplayType = None\<rparr>,
      \<lparr>id_seg = i2, start = 0, end_seg = e2, text_seg = t2, mode = m2,
       resolution = js ''Y'', wordplayType = None\<rparr>] = js ''Y'' @ separator @ js ''X'' \<and>
   summary
     [\<lparr>id_seg = i2, start = 0, end_seg = e2, text_seg = t2, mode = m2,
       resolution = js ''Y'', wordplayType = None\<rparr>,
      \<lparr>id_seg = i1, start = 5, end_seg = e1, text_seg = t1, mode = m1,
       resolution = js ''X'', wordplayType = None\<rparr>] = js ''Y'' @ separator @ js ''X''"
proof (intro conjI)
  let ?kept = "sort_key start (filter inSummary segments)"
  have f: "filter inSummary segments =
      filter (\<lambda>s. resolution s \<noteq> [] \<or> wordplayType s \<noteq> None) segments"
    by (induction segments) (simp_all add: inSummary_def)
  have m: "map summaryItem ?kept =
      map (\<lambda>s. case wordplayType s of Some w \<Rightarrow> name w | None \<Rightarrow> resolution s) ?kept"
    by (rule map_cong) (simp_all add: summaryItem_def)
  have "mset ?kept = mset (filter (\<lambda>s. resolution s \<noteq> [] \<or> wordplayType s \<noteq> None) segments)"
    by (simp add: f)
  moreover have "sorted (map start ?kept)"
    by (rule sorted_sort_key)
  moreover have "\<forall>k. filter (\<lambda>s. start s = k) ?kept =
           filter (\<lambda>s. start s = k)
             (filter (\<lambda>s. resolution s \<noteq> [] \<or> wordplayType s \<noteq> None) segments)"
    by (simp only: sort_key_stable f) simp
  moreover have "summary segments =
        join separator
          (map (\<lambda>s. case wordplayType s of Some w \<Rightarrow> name w | None \<Rightarrow> resolution s) ?kept)"
    by (simp only: summary_def m)
  ultimately show "\<exists>kept.
      mset kept = mset (filter (\<lambda>s. resolution s \<noteq> [] \<or> wordplayType s \<noteq> None) segments) \<and>
      sorted (map start kept) \<and>
      (\<forall>k. filter (\<lambda>s. start s = k) kept =
           filter (\<lambda>s. start s = k)
             (filter (\<lambda>s. resolution s \<noteq> [] \<or> wordplayType s \<noteq> None) segments)) \<and>
      summary segments =
        join separator
          (map (\<lambda>s. case wordplayType s of Some w \<Rightarrow> name w | None \<Rightarrow> resolution s) kept)"
    by blast
qed (simp_all add: summary_def inSummary_def summaryItem_def separator_def js_def)

theorem summary_projection_witness:
  "summary
     [\<lparr>id_seg = js ''id-5'', start = 5, end_seg = 5, text_seg = js '' '', mode = modes ! 3,
       resolution = js ''X'', wordplayType = None\<rparr>,
      \<lparr>id_seg = js ''id-6'', start = 0, end_seg = 0, text_seg = js ''A'', mode = modes ! 3,
       resolution = js ''Y'', wordplayType = None\<rparr>] = js ''Y'' @ separator @ js ''X'' \<and>
   summary [segmentC, segmentB, segmentA] =
     js ''ALOT'' @ separator @ js ''TWO'' @ separator @ js ''Anagram'' \<and>
   summary [segmentC, segmentA\<lparr>resolution := []\<rparr>, segmentB] =
     js ''TWO'' @ separator @ js ''Anagram''"
proof -
  have "summary [segmentC, segmentB, segmentA] =
     js ''ALOT'' @ separator @ js ''TWO'' @ separator @ js ''Anagram''"
    by (simp add: summary_def inSummary_def summaryItem_def segmentA_def segmentB_def
        segmentC_def wordplayTypes_def js_def)
  moreover have "summary [segmentC, segmentA\<lparr>resolution := []\<rparr>, segmentB] =
     js ''TWO'' @ separator @ js ''Anagram''"
    by (simp add: summary_def inSummary_def summaryItem_def segmentA_def segmentB_def
        segmentC_def wordplayTypes_def js_def)
  ultimately show ?thesis
    using summary_projection [where ?i1.0 = "js ''id-5''" and ?e1.0 = 5 and ?t1.0 = "js '' ''"
        and ?m1.0 = "modes ! 3" and ?i2.0 = "js ''id-6''" and ?e2.0 = 0 and ?t2.0 = "js ''A''"
        and ?m2.0 = "modes ! 3" and segments = "[]"]
    by blast
qed

text \<open>
  C8. \<open>updateResolution\<close> and \<open>updateWordplayType\<close> with an id that no segment
  has return the collection unchanged, and raise nothing. In general both keep
  the length, replace only the named field, in the segments with the given id,
  and leave every other segment as it is.
\<close>

theorem field_edits_by_id:
  "(i \<notin> id_seg ` set segments \<longrightarrow>
      updateResolution segments i r = segments \<and> updateWordplayType segments i w = segments) \<and>
   length (updateResolution segments i r) = length segments \<and>
   length (updateWordplayType segments i w) = length segments \<and>
   (\<forall>j<length segments.
      updateResolution segments i r ! j =
        (if id_seg (segments ! j) = i then (segments ! j)\<lparr>resolution := r\<rparr> else segments ! j) \<and>
      updateWordplayType segments i w ! j =
        (if id_seg (segments ! j) = i then (segments ! j)\<lparr>wordplayType := w\<rparr>
         else segments ! j))"
proof (intro conjI impI allI)
  assume "i \<notin> id_seg ` set segments"
  then have "\<forall>s\<in>set segments. id_seg s \<noteq> i"
    by auto
  then show "updateResolution segments i r = segments"
    and "updateWordplayType segments i w = segments"
    by (simp_all add: updateResolution_def updateWordplayType_def map_idI)
qed (simp_all add: updateResolution_def updateWordplayType_def)

theorem field_edits_by_id_witness:
  "js ''id-7'' \<notin> id_seg ` set [segmentA, segmentB, segmentC] \<and>
   updateResolution [segmentA, segmentB, segmentC] (js ''id-7'') (js ''X'') =
     [segmentA, segmentB, segmentC] \<and>
   updateWordplayType [segmentA, segmentB, segmentC] (js ''id-7'') (Some (wordplayTypes ! 1)) =
     [segmentA, segmentB, segmentC] \<and>
   updateResolution [segmentA, segmentB, segmentC] (js ''id-2'') (js ''X'') =
     [segmentA, segmentB\<lparr>resolution := js ''X''\<rparr>, segmentC] \<and>
   updateWordplayType [segmentA, segmentB, segmentC] (js ''id-3'') None =
     [segmentA, segmentB, segmentC\<lparr>wordplayType := None\<rparr>]"
proof -
  have n: "js ''id-7'' \<notin> id_seg ` set [segmentA, segmentB, segmentC]"
    by (simp add: segmentA_def segmentB_def segmentC_def js_def)
  have "updateResolution [segmentA, segmentB, segmentC] (js ''id-2'') (js ''X'') =
     [segmentA, segmentB\<lparr>resolution := js ''X''\<rparr>, segmentC]"
    by (simp add: updateResolution_def segmentA_def segmentB_def segmentC_def js_def)
  moreover have "updateWordplayType [segmentA, segmentB, segmentC] (js ''id-3'') None =
     [segmentA, segmentB, segmentC\<lparr>wordplayType := None\<rparr>]"
    by (simp add: updateWordplayType_def segmentA_def segmentB_def segmentC_def js_def)
  ultimately show ?thesis
    using n field_edits_by_id [of "js ''id-7''" "[segmentA, segmentB, segmentC]" "js ''X''"
        "Some (wordplayTypes ! 1)"]
    by blast
qed

text \<open>
  C9. Selecting again the exact range of a segment under the mode the segment
  already has sets its resolution to \<open>defaultResolution(mode, segment.text)\<close>,
  whatever the resolution was before, so a value the user typed is lost; under
  the synonym mode the new resolution is the empty string. The segment is the one
  at index \<open>i\<close>, the first with that range.
\<close>

theorem reselect_same_mode_resets_resolution:
  assumes "behaviorKey M \<noteq> js ''clear''"
    and "segmentBehaviors up (behaviorKey M) = Some b"
    and "i < length segments"
    and "start (segments ! i) = st \<and> end_seg (segments ! i) = en"
    and "\<forall>j<i. \<not> (start (segments ! j) = st \<and> end_seg (segments ! j) = en)"
    and "mode (segments ! i) = M"
  shows "\<exists>segments'. addOrUpdateSegment up uuid T segments M st en = Inr segments' \<and>
       mode (segments' ! i) = M \<and>
       resolution (segments' ! i) = getDefaultResolution b (text_seg (segments ! i)) \<and>
       defaultResolution up (behaviorKey M) (text_seg (segments ! i)) =
         Inr (resolution (segments' ! i)) \<and>
       (behaviorKey M = js ''synonym'' \<longrightarrow> resolution (segments' ! i) = [])"
proof -
  let ?r = "getDefaultResolution b (text_seg (segments ! i))"
  let ?S = "segments[i := (segments ! i)\<lparr>mode := M, resolution := ?r\<rparr>]"
  have "addOrUpdateSegment up uuid T segments M st en = Inr ?S"
    using assms(1-5) by (rule addOrUpdateSegment_retag_at)
  moreover have "mode (?S ! i) = M" "resolution (?S ! i) = ?r"
    using assms(3) by simp_all
  moreover have "defaultResolution up (behaviorKey M) (text_seg (segments ! i)) = Inr ?r"
    using assms(2) by (simp add: defaultResolution_def)
  moreover have "behaviorKey M = js ''synonym'' \<longrightarrow> ?r = []"
    using assms(2) segmentBehaviors_empty [of "behaviorKey M" up] by auto
  ultimately show ?thesis using assms(3) by simp
qed

theorem reselect_same_mode_resets_resolution_witness:
  "mode ([segmentA, segmentB, segmentC] ! 1) = modes ! 3 \<and>
   behaviorKey (modes ! 3) = js ''synonym'' \<and>
   resolution ([segmentA, segmentB, segmentC] ! 1) = js ''TWO'' \<and>
   (\<exists>segments'. addOrUpdateSegment toUpperCaseASCII (js ''id-9'') clue
       [segmentA, segmentB, segmentC] (modes ! 3) 6 7 = Inr segments' \<and>
      resolution (segments' ! 1) = [])"
proof -
  have 1: "behaviorKey (modes ! 3) \<noteq> js ''clear''"
    and s: "behaviorKey (modes ! 3) = js ''synonym''"
    by (simp_all add: modes_def js_def)
  have 2: "segmentBehaviors toUpperCaseASCII (behaviorKey (modes ! 3)) =
      Some \<lparr>getDefaultResolution = (\<lambda>text. []), showResolutionInput = True,
            resolutionEditable = True, showWordplaySelector = False\<rparr>"
    by (simp add: segmentBehaviors_def modes_def js_def)
  have 3: "1 < length [segmentA, segmentB, segmentC]"
    by simp
  have 4: "start ([segmentA, segmentB, segmentC] ! 1) = 6 \<and>
      end_seg ([segmentA, segmentB, segmentC] ! 1) = 7"
    by (simp add: segmentB_def)
  have 5: "\<forall>j<1. \<not> (start ([segmentA, segmentB, segmentC] ! j) = 6 \<and>
      end_seg ([segmentA, segmentB, segmentC] ! j) = 7)"
    by (simp add: segmentA_def)
  have 6: "mode ([segmentA, segmentB, segmentC] ! 1) = modes ! 3"
    and 7: "resolution ([segmentA, segmentB, segmentC] ! 1) = js ''TWO''"
    by (simp_all add: segmentB_def)
  show ?thesis
    using s 6 7 reselect_same_mode_resets_resolution [OF 1 2 3 4 5 6, of "js ''id-9''" clue]
    by blast
qed

text \<open>
  C10. An exact re-selection keeps the wordplayType of the segment, for every
  target mode that is not the erase mode (also one whose descriptor hides the
  wordplay selector). A segment that carries a wordplayType is therefore still
  part of the summary after the re-tag and is shown there by the name of its
  wordplay type, not by its new resolution.
\<close>

theorem retag_keeps_wordplayType:
  assumes "behaviorKey M \<noteq> js ''clear''"
    and "segmentBehaviors up (behaviorKey M) = Some b"
    and "i < length segments"
    and "start (segments ! i) = st \<and> end_seg (segments ! i) = en"
    and "\<forall>j<i. \<not> (start (segments ! j) = st \<and> end_seg (segments ! j) = en)"
  shows "\<exists>segments'. addOrUpdateSegment up uuid T segments M st en = Inr segments' \<and>
       wordplayType (segments' ! i) = wordplayType (segments ! i) \<and>
       (\<forall>w. wordplayType (segments ! i) = Some w \<longrightarrow>
          inSummary (segments' ! i) \<and> summaryItem (segments' ! i) = name w \<and>
          summary [segments' ! i] = name w)"
proof -
  let ?r = "getDefaultResolution b (text_seg (segments ! i))"
  let ?S = "segments[i := (segments ! i)\<lparr>mode := M, resolution := ?r\<rparr>]"
  have "addOrUpdateSegment up uuid T segments M st en = Inr ?S"
    using assms by (rule addOrUpdateSegment_retag_at)
  moreover have "wordplayType (?S ! i) = wordplayType (segments ! i)"
    using assms(3) by simp
  moreover have "\<forall>w. wordplayType (segments ! i) = Some w \<longrightarrow>
          inSummary (?S ! i) \<and> summaryItem (?S ! i) = name w \<and> summary [?S ! i] = name w"
    using assms(3) by (simp add: inSummary_def summaryItem_def summary_def)
  ultimately show ?thesis by blast
qed

theorem retag_keeps_wordplayType_witness:
  "behaviorKey (modes ! 3) = js ''synonym'' \<and>
   mode ([segmentA, segmentB, segmentC] ! 2) = modes ! 2 \<and>
   behaviorKey (modes ! 2) = js ''wordplayIndicator'' \<and>
   wordplayType ([segmentA, segmentB, segmentC] ! 2) = Some (wordplayTypes ! 0) \<and>
   name (wordplayTypes ! 0) = js ''Anagram'' \<and>
   (\<exists>b. segmentBehaviors toUpperCaseASCII (behaviorKey (modes ! 3)) = Some b \<and>
      \<not> showWordplaySelector b) \<and>
   (\<exists>segments'. addOrUpdateSegment toUpperCaseASCII (js ''id-9'') clue
       [segmentA, segmentB, segmentC] (modes ! 3) 9 14 = Inr segments' \<and>
      segments' = [segmentA, segmentB, segmentC\<lparr>mode := modes ! 3\<rparr>] \<and>
      resolution (segments' ! 2) = [] \<and>
      wordplayType (segments' ! 2) = Some (wordplayTypes ! 0) \<and>
      summaryItem (segments' ! 2) = js ''Anagram'' \<and>
      summary segments' = js ''ALOT'' @ separator @ js ''TWO'' @ separator @ js ''Anagram'')"
proof -
  let ?b = "\<lparr>getDefaultResolution = (\<lambda>text. []), showResolutionInput = True,
            resolutionEditable = True, showWordplaySelector = False\<rparr>"
  have 1: "behaviorKey (modes ! 3) \<noteq> js ''clear''"
    and s: "behaviorKey (modes ! 3) = js ''synonym''"
    and w: "behaviorKey (modes ! 2) = js ''wordplayIndicator''"
    by (simp_all add: modes_def js_def)
  have 2: "segmentBehaviors toUpperCaseASCII (behaviorKey (modes ! 3)) = Some ?b"
    by (simp add: segmentBehaviors_def modes_def js_def)
  have 3: "2 < length [segmentA, segmentB, segmentC]"
    by simp
  have 4: "start ([segmentA, segmentB, segmentC] ! 2) = 9 \<and>
      end_seg ([segmentA, segmentB, segmentC] ! 2) = 14"
    by (simp add: segmentC_def)
  have 5: "\<forall>j<2. \<not> (start ([segmentA, segmentB, segmentC] ! j) = 9 \<and>
      end_seg ([segmentA, segmentB, segmentC] ! j) = 14)"
    by (simp add: segmentA_def segmentB_def less_2_cases_iff)
  have 6: "mode ([segmentA, segmentB, segmentC] ! 2) = modes ! 2"
    and 7: "wordplayType ([segmentA, segmentB, segmentC] ! 2) = Some (wordplayTypes ! 0)"
    and 8: "name (wordplayTypes ! 0) = js ''Anagram''"
    by (simp_all add: segmentC_def wordplayTypes_def)
  have r: "addOrUpdateSegment toUpperCaseASCII (js ''id-9'') clue
       [segmentA, segmentB, segmentC] (modes ! 3) 9 14 =
       Inr [segmentA, segmentB, segmentC\<lparr>mode := modes ! 3\<rparr>]"
    using addOrUpdateSegment_retag_at [OF 1 2 3 4 5, of "js ''id-9''" clue]
    by (simp add: segmentC_def)
  have q: "summary [segmentA, segmentB, segmentC\<lparr>mode := modes ! 3\<rparr>] =
      js ''ALOT'' @ separator @ js ''TWO'' @ separator @ js ''Anagram''"
    by (simp add: summary_def inSummary_def summaryItem_def segmentA_def segmentB_def
        segmentC_def wordplayTypes_def js_def)
  from retag_keeps_wordplayType [OF 1 2 3 4 5, of "js ''id-9''" clue] r 7 8
  have k: "wordplayType ([segmentA, segmentB, segmentC\<lparr>mode := modes ! 3\<rparr>] ! 2) =
        Some (wordplayTypes ! 0) \<and>
      summaryItem ([segmentA, segmentB, segmentC\<lparr>mode := modes ! 3\<rparr>] ! 2) = js ''Anagram''"
    by auto
  have e: "resolution ([segmentA, segmentB, segmentC\<lparr>mode := modes ! 3\<rparr>] ! 2) = []"
    by (simp add: segmentC_def)
  show ?thesis
    using s w 2 6 7 8 r q k e by simp
qed

end
